theory Spec2Isabelle
  imports Main "HOL-Library.Product_Lexorder"
begin

section \<open>Data model (types.ts)\<close>

text \<open>
  A JavaScript string is modelled as a \<open>string\<close>, one \<open>char\<close> per UTF-16 code unit
  (so \<open>length\<close> is the source's \<open>.length\<close>); timestamps and token counts are
  JavaScript numbers holding integers and are modelled as \<open>int\<close>.

  \<open>SessionType\<close> is a union of string literals, erased at run time: a session type
  is the string itself, and \<open>SESSION_TYPES\<close> lists the four literals the schema admits.
\<close>

type_synonym SessionType = string

definition SESSION_TYPES :: "SessionType list" where
  "SESSION_TYPES = [''dm'', ''webhook'', ''cron'', ''group'']"

text \<open>\<open>CreateEntryInput\<close>: an absent optional field (\<open>undefined\<close>) is \<open>None\<close>.\<close>

record CreateEntryInput =
  sessionKey :: string
  sessionType :: SessionType
  summary :: string
  taskId :: "string option"
  metadata :: "(string \<times> string) list option"

text \<open>
  \<open>ContextEntry\<close> has the five fields above (with \<open>null\<close> as \<open>None\<close>) and four more;
  its \<open>id\<close> field is named \<open>entryId\<close> here, \<open>id\<close> being the identity function of HOL.
\<close>

record ContextEntry = CreateEntryInput +
  entryId :: string
  pinned :: bool
  createdAt :: int
  expiresAt :: int

section \<open>Token estimate and relative time (manager.ts, injection.ts)\<close>

text \<open>\<open>Math.ceil(text.length / 4)\<close>, the same in manager.ts and in injection.ts.\<close>

definition CHARS_PER_TOKEN :: nat where
  "CHARS_PER_TOKEN = 4"

definition estimateTokens :: "string \<Rightarrow> int" where
  "estimateTokens text = int ((length text + (CHARS_PER_TOKEN - 1)) div CHARS_PER_TOKEN)"

text \<open>
  The decimal digits a template literal writes for a non-negative integer
  (\<open>${diffMinutes}\<close>), and for any integer.
\<close>

fun decimal :: "nat \<Rightarrow> string" where
  "decimal n = (if n < 10 then [''0123456789'' ! n]
                else decimal (n div 10) @ [''0123456789'' ! (n mod 10)])"

declare decimal.simps [simp del]

definition number_text :: "int \<Rightarrow> string" where
  "number_text i = (if i < 0 then ''-'' @ decimal (nat (- i)) else decimal (nat i))"

text \<open>\<open>Math.floor(a / b)\<close> for integers \<open>a\<close> and positive \<open>b\<close> is \<open>a div b\<close>.\<close>

definition formatRelativeTime :: "int \<Rightarrow> int \<Rightarrow> string" where
  "formatRelativeTime timestampMs nowMs =
     (let diffMs = nowMs - timestampMs;
          diffMinutes = diffMs div 60000
      in if diffMinutes < 1 then ''just now''
         else if diffMinutes < 60 then number_text diffMinutes @ ''m ago''
         else let diffHours = diffMinutes div 60
              in if diffHours < 24 then number_text diffHours @ ''h ago''
                 else let diffDays = diffHours div 24
                      in number_text diffDays @ ''d ago'')"

section \<open>Token-budget selection (manager.ts)\<close>

text \<open>
  The \<open>for\<close> loop of \<open>truncateToTokenBudget\<close>, with its two variables \<open>result\<close> and
  \<open>tokensUsed\<close> as arguments; \<open>break\<close> returns \<open>result\<close> as it stands.
\<close>

fun truncate_loop ::
  "ContextEntry list \<Rightarrow> int \<Rightarrow> ContextEntry list \<Rightarrow> int \<Rightarrow> ContextEntry list" where
  "truncate_loop [] maxTokens result tokensUsed = result"
| "truncate_loop (entry # rest) maxTokens result tokensUsed =
     (let entryTokens = estimateTokens (summary entry)
      in if tokensUsed + entryTokens > maxTokens \<and> length result > 0 then result
         else truncate_loop rest maxTokens (result @ [entry]) (tokensUsed + entryTokens))"

definition truncateToTokenBudget :: "ContextEntry list \<Rightarrow> int \<Rightarrow> ContextEntry list" where
  "truncateToTokenBudget entries maxTokens = truncate_loop entries maxTokens [] 0"

text \<open>The estimated cost of the summaries of a list of entries.\<close>

definition summary_tokens :: "ContextEntry list \<Rightarrow> int" where
  "summary_tokens es = sum_list (map (\<lambda>e. estimateTokens (summary e)) es)"

section \<open>Rendering (injection.ts)\<close>

text \<open>
  \<open>SESSION_TYPE_LABELS[entry.sessionType]\<close>: a property read; for a string that is not
  a key (nor the name of a property that every object inherits) the read gives
  \<open>undefined\<close>, which the template literal writes as that word.
\<close>

definition SESSION_TYPE_LABELS :: "(SessionType \<times> string) list" where
  "SESSION_TYPE_LABELS =
     [(''dm'', ''DM''), (''webhook'', ''Webhook''), (''cron'', ''Cron''), (''group'', ''Group'')]"

definition session_label :: "SessionType \<Rightarrow> string" where
  "session_label t = (case map_of SESSION_TYPE_LABELS t of Some l \<Rightarrow> l | None \<Rightarrow> ''undefined'')"

text \<open>\<open>entry.taskId ? ... : ""\<close>: \<open>null\<close> and the empty string are both falsy.\<close>

definition formatEntry :: "ContextEntry \<Rightarrow> int \<Rightarrow> string" where
  "formatEntry entry nowMs =
     (let time = formatRelativeTime (createdAt entry) nowMs;
          label = session_label (sessionType entry);
          pin = (if pinned entry then '' [pinned]'' else []);
          task = (case taskId entry of
                    None \<Rightarrow> []
                  | Some t \<Rightarrow> if t = [] then [] else '' (task: '' @ t @ '')'')
      in ''- ['' @ time @ '', '' @ label @ pin @ '']'' @ task @ '' '' @ summary entry)"

record FormatOptions =
  fmt_maxTokens :: "int option"
  fmt_now :: "int option"

definition header :: string where
  "header = ''## Working Context (recent activity)'' @ [CHR 0x0A]"

definition truncation_marker :: string where
  "truncation_marker = ''- ... (older entries truncated)''"

text \<open>
  The \<open>for\<close> loop of \<open>formatForSystemPrompt\<close> with its variables \<open>budget\<close> and \<open>lines\<close>;
  it returns the array \<open>lines\<close> as the loop leaves it.
\<close>

fun format_loop :: "ContextEntry list \<Rightarrow> int \<Rightarrow> int \<Rightarrow> string list \<Rightarrow> string list" where
  "format_loop [] nowMs budget lines = lines"
| "format_loop (entry # rest) nowMs budget lines =
     (let line = formatEntry entry nowMs;
          lineTokens = estimateTokens line
      in if budget - lineTokens < 0 then lines @ [truncation_marker]
         else format_loop rest nowMs (budget - lineTokens) (lines @ [line]))"

text \<open>\<open>lines.join("\n")\<close>.\<close>

fun join_lines :: "string list \<Rightarrow> string" where
  "join_lines [] = []"
| "join_lines [l] = l"
| "join_lines (l # ls) = l @ [CHR 0x0A] @ join_lines ls"

text \<open>
  The array \<open>lines\<close> that \<open>formatForSystemPrompt\<close> joins, for a non-empty list of entries.
  \<open>clock\<close> is what \<open>Date.now()\<close> returns, read only when \<open>options.now\<close> is absent.
\<close>

definition format_lines :: "int \<Rightarrow> ContextEntry list \<Rightarrow> FormatOptions \<Rightarrow> string list" where
  "format_lines clock entries options =
     (let nowMs = (case fmt_now options of Some n \<Rightarrow> n | None \<Rightarrow> clock);
          maxTokens = (case fmt_maxTokens options of Some m \<Rightarrow> m | None \<Rightarrow> 2000);
          budget = maxTokens - estimateTokens header
      in format_loop entries nowMs budget [])"

definition formatForSystemPrompt :: "int \<Rightarrow> ContextEntry list \<Rightarrow> FormatOptions \<Rightarrow> string" where
  "formatForSystemPrompt clock entries options =
     (if length entries = 0 then []
      else header @ join_lines (format_lines clock entries options))"

text \<open>The estimated cost of the rendered lines of a list of entries.\<close>

definition line_tokens :: "int \<Rightarrow> ContextEntry list \<Rightarrow> int" where
  "line_tokens nowMs es = sum_list (map (\<lambda>e. estimateTokens (formatEntry e nowMs)) es)"

section \<open>Entry store (storage.ts)\<close>

text \<open>
  The table \<open>context_entries\<close> is the list of its rows in ascending \<open>rowid\<close>. A row has
  the columns of the \<open>CREATE TABLE\<close> statement, under the names of the entry fields that
  \<open>rowToEntry\<close> gives them, and SQLite's implicit \<open>rowid\<close>. Two columns are modelled by
  the value they encode: \<open>pinned\<close> (only ever written as 0 or 1, read back by \<open>=== 1\<close>) by
  the boolean, and \<open>metadata\<close> (the \<open>JSON.stringify\<close> text of the record, read back by
  \<open>JSON.parse\<close>) by the record; an object is truthy and its JSON text is not the empty
  string, so both guards \<open>x ? ... : null\<close> keep \<open>null\<close> apart from every record.
\<close>

record ContextEntryRow = ContextEntry +
  rowid :: nat

type_synonym Store = "ContextEntryRow list"

datatype error = ZodError | SqliteConstraintError

definition rowToEntry :: "ContextEntryRow \<Rightarrow> ContextEntry" where
  "rowToEntry row =
     \<lparr>sessionKey = sessionKey row, sessionType = sessionType row, summary = summary row,
      taskId = taskId row, metadata = metadata row, entryId = entryId row,
      pinned = pinned row, createdAt = createdAt row, expiresAt = expiresAt row\<rparr>"

definition entryToRow :: "nat \<Rightarrow> ContextEntry \<Rightarrow> ContextEntryRow" where
  "entryToRow n entry =
     \<lparr>sessionKey = sessionKey entry, sessionType = sessionType entry, summary = summary entry,
      taskId = taskId entry, metadata = metadata entry, entryId = entryId entry,
      pinned = pinned entry, createdAt = createdAt entry, expiresAt = expiresAt entry,
      rowid = n\<rparr>"

text \<open>
  The table has no \<open>AUTOINCREMENT\<close>: a new row gets one more than the largest \<open>rowid\<close> in
  use, and 1 in an empty table.
\<close>

definition next_rowid :: "Store \<Rightarrow> nat" where
  "next_rowid db = Suc (fold max (map rowid db) 0)"

text \<open>
  What the schema and the row numbering keep true of every table: \<open>id\<close> is the primary
  key, and the rows are listed in strictly ascending \<open>rowid\<close>.
\<close>

definition wf_store :: "Store \<Rightarrow> bool" where
  "wf_store db \<longleftrightarrow> distinct (map entryId db) \<and> sorted_wrt (<) (map rowid db)"

text \<open>
  \<open>insert\<close>: \<open>now\<close> is the value of \<open>Date.now()\<close> and \<open>uuid\<close> that of \<open>randomUUID()\<close>;
  \<open>new_entry\<close> is the object that \<open>insert\<close> builds, writes and returns.
  The \<open>INSERT\<close> of an id already in the table violates the primary key; \<open>run\<close> throws
  and the table is unchanged.
\<close>

definition new_entry :: "int \<Rightarrow> string \<Rightarrow> CreateEntryInput \<Rightarrow> int \<Rightarrow> ContextEntry" where
  "new_entry now uuid input ttlMinutes =
     \<lparr>sessionKey = sessionKey input, sessionType = sessionType input,
      summary = summary input, taskId = taskId input, metadata = metadata input,
      entryId = uuid, pinned = False, createdAt = now,
      expiresAt = now + ttlMinutes * 60 * 1000\<rparr>"

definition storage_insert ::
  "int \<Rightarrow> string \<Rightarrow> CreateEntryInput \<Rightarrow> int \<Rightarrow> Store \<Rightarrow> (error + ContextEntry) \<times> Store" where
  "storage_insert now uuid input ttlMinutes db =
     (let entry = new_entry now uuid input ttlMinutes
      in if uuid \<in> set (map entryId db) then (Inl SqliteConstraintError, db)
         else (Inr entry, db @ [entryToRow (next_rowid db) entry]))"

definition storage_getById :: "string \<Rightarrow> Store \<Rightarrow> ContextEntry option" where
  "storage_getById i db = map_option rowToEntry (find (\<lambda>row. entryId row = i) db)"

text \<open>
  \<open>LIMIT n\<close>: a negative \<open>n\<close> is no limit. \<open>LIMIT -1 OFFSET n\<close>: every row after the
  first \<open>n\<close>, a negative \<open>n\<close> counting as 0.
\<close>

definition sql_limit :: "int \<Rightarrow> 'a list \<Rightarrow> 'a list" where
  "sql_limit n rows = (if n < 0 then rows else take (nat n) rows)"

definition sql_offset :: "int \<Rightarrow> 'a list \<Rightarrow> 'a list" where
  "sql_offset n rows = drop (nat n) rows"

text \<open>\<open>ORDER BY pinned DESC, created_at DESC, rowid DESC\<close>, as an ascending sort key.\<close>

definition recent_key :: "ContextEntryRow \<Rightarrow> nat \<times> int \<times> int" where
  "recent_key row = (if pinned row then 0 else 1, - createdAt row, - int (rowid row))"

text \<open>
  \<open>ORDER BY created_at DESC\<close> alone: SQLite reads the rows off \<open>idx_entries_created_at\<close>
  backwards, so rows of equal \<open>created_at\<close> come in descending \<open>rowid\<close>.
\<close>

definition created_key :: "ContextEntryRow \<Rightarrow> int \<times> int" where
  "created_key row = (- createdAt row, - int (rowid row))"

record RecentFilter =
  limit :: "int option"
  maxAgeMs :: "int option"
  filter_sessionType :: "string option"
  filter_taskId :: "string option"

text \<open>The \<open>WHERE\<close> clause that \<open>getRecent\<close> assembles; a \<open>NULL\<close> task id equals nothing.\<close>

definition recent_where :: "int \<Rightarrow> RecentFilter \<Rightarrow> ContextEntryRow \<Rightarrow> bool" where
  "recent_where now options row \<longleftrightarrow>
     (expiresAt row > now \<or> pinned row) \<and>
     (case maxAgeMs options of None \<Rightarrow> True
        | Some age \<Rightarrow> createdAt row > now - age \<or> pinned row) \<and>
     (case filter_sessionType options of None \<Rightarrow> True | Some t \<Rightarrow> sessionType row = t) \<and>
     (case filter_taskId options of None \<Rightarrow> True | Some t \<Rightarrow> taskId row = Some t)"

text \<open>The rows that the \<open>SELECT\<close> of \<open>getRecent\<close> returns, and the entries made of them.\<close>

definition recent_rows :: "int \<Rightarrow> RecentFilter \<Rightarrow> Store \<Rightarrow> ContextEntryRow list" where
  "recent_rows now options db =
     sql_limit (case limit options of Some n \<Rightarrow> n | None \<Rightarrow> 100)
       (sort_key recent_key (filter (recent_where now options) db))"

definition storage_getRecent :: "int \<Rightarrow> RecentFilter \<Rightarrow> Store \<Rightarrow> ContextEntry list" where
  "storage_getRecent now options db = map rowToEntry (recent_rows now options db)"

definition storage_pin :: "string \<Rightarrow> Store \<Rightarrow> bool \<times> Store" where
  "storage_pin i db =
     (length (filter (\<lambda>row. entryId row = i) db) > 0,
      map (\<lambda>row. if entryId row = i then row\<lparr>pinned := True\<rparr> else row) db)"

definition storage_unpin :: "string \<Rightarrow> Store \<Rightarrow> bool \<times> Store" where
  "storage_unpin i db =
     (length (filter (\<lambda>row. entryId row = i) db) > 0,
      map (\<lambda>row. if entryId row = i then row\<lparr>pinned := False\<rparr> else row) db)"

definition storage_delete :: "string \<Rightarrow> Store \<Rightarrow> bool \<times> Store" where
  "storage_delete i db =
     (length (filter (\<lambda>row. entryId row = i) db) > 0, filter (\<lambda>row. entryId row \<noteq> i) db)"

definition storage_deleteByTaskId :: "string \<Rightarrow> Store \<Rightarrow> nat \<times> Store" where
  "storage_deleteByTaskId t db =
     (length (filter (\<lambda>row. taskId row = Some t) db), filter (\<lambda>row. taskId row \<noteq> Some t) db)"

definition storage_pruneExpired :: "int \<Rightarrow> Store \<Rightarrow> nat \<times> Store" where
  "storage_pruneExpired now db =
     (length (filter (\<lambda>row. expiresAt row \<le> now \<and> \<not> pinned row) db),
      filter (\<lambda>row. \<not> (expiresAt row \<le> now \<and> \<not> pinned row)) db)"

text \<open>The ids that the subquery of \<open>enforceMaxEntries\<close> selects.\<close>

definition beyond_cap :: "int \<Rightarrow> Store \<Rightarrow> string list" where
  "beyond_cap maxEntries db =
     map entryId (sql_offset maxEntries (sort_key created_key (filter (\<lambda>row. \<not> pinned row) db)))"

definition storage_enforceMaxEntries :: "int \<Rightarrow> Store \<Rightarrow> nat \<times> Store" where
  "storage_enforceMaxEntries maxEntries db =
     (length (filter (\<lambda>row. entryId row \<in> set (beyond_cap maxEntries db)) db),
      filter (\<lambda>row. entryId row \<notin> set (beyond_cap maxEntries db)) db)"

definition storage_count :: "Store \<Rightarrow> nat" where
  "storage_count db = length db"

section \<open>Retention policy (types.ts, manager.ts)\<close>

text \<open>
  \<open>CreateEntrySchema.parse\<close>: \<open>z.string().min(1)\<close> for the session key and the summary,
  \<open>z.enum(SESSION_TYPES)\<close> for the session type. It throws a \<open>ZodError\<close> or returns the
  input.
\<close>

definition CreateEntrySchema_parse :: "CreateEntryInput \<Rightarrow> error + CreateEntryInput" where
  "CreateEntrySchema_parse input =
     (if length (sessionKey input) \<ge> 1 \<and> sessionType input \<in> set SESSION_TYPES \<and>
         length (summary input) \<ge> 1
      then Inr input else Inl ZodError)"

text \<open>
  \<open>ManagerConfig\<close> without \<open>dbPath\<close>, which names the database file: a manager is its
  parsed configuration, and the table is passed to each method and returned by it.
\<close>

record ManagerConfig =
  maxEntries :: int
  defaultTtlMinutes :: int

definition ManagerConfigSchema_parse :: "ManagerConfig \<Rightarrow> error + ManagerConfig" where
  "ManagerConfigSchema_parse config =
     (if maxEntries config > 0 \<and> defaultTtlMinutes config \<ge> 0 then Inr config
      else Inl ZodError)"

text \<open>
  What one call of \<open>add\<close> reads from outside: \<open>Date.now()\<close> in \<open>pruneExpired\<close>, then
  \<open>Date.now()\<close> and \<open>randomUUID()\<close> in \<open>insert\<close>.
\<close>

record AddEnv =
  pruneNow :: int
  insertNow :: int
  uuid :: string

text \<open>
  \<open>add\<close> returns the entry or throws; the table it leaves is returned in both cases.
\<close>

definition manager_add ::
  "ManagerConfig \<Rightarrow> AddEnv \<Rightarrow> CreateEntryInput \<Rightarrow> Store \<Rightarrow> (error + ContextEntry) \<times> Store" where
  "manager_add config env input db =
     (case CreateEntrySchema_parse input of
        Inl e \<Rightarrow> (Inl e, db)
      | Inr validated \<Rightarrow>
          let db1 = snd (storage_pruneExpired (pruneNow env) db);
              (r, db2) = storage_insert (insertNow env) (uuid env) validated
                           (defaultTtlMinutes config) db1
          in case r of
               Inl e \<Rightarrow> (Inl e, db2)
             | Inr entry \<Rightarrow>
                 (Inr entry, snd (storage_enforceMaxEntries (maxEntries config) db2)))"

definition manager_getById :: "string \<Rightarrow> Store \<Rightarrow> ContextEntry option" where
  "manager_getById i db = storage_getById i db"

record GetRecentOptions =
  maxTokens :: "int option"
  maxAge :: "int option"
  options_sessionType :: "SessionType option"
  options_taskId :: "string option"

definition manager_getRecent ::
  "ManagerConfig \<Rightarrow> int \<Rightarrow> GetRecentOptions \<Rightarrow> Store \<Rightarrow> ContextEntry list" where
  "manager_getRecent config now options db =
     (let ageMs = map_option (\<lambda>a. a * 60 * 1000) (maxAge options);
          entries = storage_getRecent now
                      \<lparr>limit = Some (maxEntries config), maxAgeMs = ageMs,
                       filter_sessionType = options_sessionType options,
                       filter_taskId = options_taskId options\<rparr> db
      in case maxTokens options of
           Some m \<Rightarrow> truncateToTokenBudget entries m
         | None \<Rightarrow> entries)"

definition manager_delete :: "string \<Rightarrow> Store \<Rightarrow> bool \<times> Store" where
  "manager_delete i db = storage_delete i db"

definition manager_clearByTaskId :: "string \<Rightarrow> Store \<Rightarrow> nat \<times> Store" where
  "manager_clearByTaskId t db = storage_deleteByTaskId t db"

text \<open>
  \<open>clear(): void\<close>. The entries fetched first, and the loop over them; the value
  returned is \<open>()\<close>.
\<close>

definition clear_entries :: "int \<Rightarrow> Store \<Rightarrow> ContextEntry list" where
  "clear_entries now db =
     storage_getRecent now
       \<lparr>limit = Some 10000, maxAgeMs = None, filter_sessionType = None, filter_taskId = None\<rparr> db"

fun clear_loop :: "ContextEntry list \<Rightarrow> Store \<Rightarrow> Store" where
  "clear_loop [] db = db"
| "clear_loop (entry # rest) db = clear_loop rest (snd (storage_delete (entryId entry) db))"

definition manager_clear :: "int \<Rightarrow> Store \<Rightarrow> unit \<times> Store" where
  "manager_clear now db = ((), clear_loop (clear_entries now db) db)"

definition manager_pruneExpired :: "int \<Rightarrow> Store \<Rightarrow> nat \<times> Store" where
  "manager_pruneExpired now db = storage_pruneExpired now db"

definition manager_count :: "Store \<Rightarrow> nat" where
  "manager_count db = storage_count db"


section \<open>Configuration and the singleton manager (singleton.ts)\<close>







section \<open>Capture adapter (capture.ts)\<close>






text \<open>
  The two module-level maps, the singleton \<open>instance\<close> and the table behind it.
\<close>

record CaptureState =
  runTextBuffers :: "string \<rightharpoonup> string"
  runSessionKeys :: "string \<rightharpoonup> string"
  manager_instance :: "ManagerConfig option"
  table :: Store


text \<open>\<open>runTextBuffers.delete(evt.runId); runSessionKeys.delete(evt.runId)\<close>.\<close>

definition forget_run :: "string \<Rightarrow> CaptureState \<Rightarrow> CaptureState" where
  "forget_run run st =
     st\<lparr>runTextBuffers := (runTextBuffers st)(run := None),
        runSessionKeys := (runSessionKeys st)(run := None)\<rparr>"




section \<open>Concrete data for the instances below\<close>

definition sample_input :: "string \<Rightarrow> CreateEntryInput" where
  "sample_input text =
     \<lparr>sessionKey = ''agent:main:main'', sessionType = ''dm'', summary = text,
      taskId = None, metadata = None\<rparr>"

definition sample_entry :: "string \<Rightarrow> string \<Rightarrow> bool \<Rightarrow> int \<Rightarrow> int \<Rightarrow> ContextEntry" where
  "sample_entry i text p created expires =
     \<lparr>sessionKey = ''agent:main:main'', sessionType = ''dm'', summary = text,
      taskId = None, metadata = None, entryId = i, pinned = p, createdAt = created,
      expiresAt = expires\<rparr>"

definition sample_row :: "nat \<Rightarrow> string \<Rightarrow> string \<Rightarrow> bool \<Rightarrow> int \<Rightarrow> int \<Rightarrow> ContextEntryRow" where
  "sample_row n i text p created expires = entryToRow n (sample_entry i text p created expires)"

definition sample_env :: "int \<Rightarrow> string \<Rightarrow> AddEnv" where
  "sample_env now i = \<lparr>pruneNow = now, insertNow = now, uuid = i\<rparr>"





section \<open>Properties of the token estimate and of the selection\<close>

lemma estimateTokens_nonneg: "0 \<le> estimateTokens t"
  by (simp add: estimateTokens_def)

lemma estimateTokens_mono: "length s \<le> length t \<Longrightarrow> estimateTokens s \<le> estimateTokens t"
  by (simp add: estimateTokens_def CHARS_PER_TOKEN_def div_le_mono)

lemma summary_tokens_nonneg: "0 \<le> summary_tokens ys"
  unfolding summary_tokens_def by (rule sum_list_nonneg) (auto simp: estimateTokens_nonneg)

lemma summary_tokens_Cons:
  "summary_tokens (e # es) = estimateTokens (summary e) + summary_tokens es"
  by (simp add: summary_tokens_def)

text \<open>
  The loop from any intermediate state: it appends a prefix of what is left, and the
  entry at position \<open>i\<close> of what is left is taken exactly when it is the first entry of
  all, or the running total with it stays within the budget.
\<close>

lemma truncate_loop_prefix:
  "\<exists>k\<le>length xs. truncate_loop xs m res used = res @ take k xs \<and>
     (\<forall>i<length xs. i < k \<longleftrightarrow>
        ((res = [] \<and> i = 0) \<or> used + summary_tokens (take (Suc i) xs) \<le> m))"
proof (induction xs arbitrary: res used)
  case Nil
  then show ?case by simp
next
  case (Cons e rest)
  let ?t = "estimateTokens (summary e)"
  have st: "\<And>j. summary_tokens (take (Suc j) (e # rest)) = ?t + summary_tokens (take j rest)"
    by (simp add: summary_tokens_Cons)
  show ?case
  proof (cases "used + ?t > m \<and> length res > 0")
    case True
    have "\<forall>i<length (e # rest). \<not> used + summary_tokens (take (Suc i) (e # rest)) \<le> m"
    proof (intro allI impI)
      fix i
      from summary_tokens_nonneg[of "take i rest"] True st[of i]
      show "\<not> used + summary_tokens (take (Suc i) (e # rest)) \<le> m"
        by linarith
    qed
    moreover have "truncate_loop (e # rest) m res used = res @ take 0 (e # rest)"
      using True by simp
    moreover from True have "res \<noteq> []" by simp
    ultimately show ?thesis
      by (intro exI[of _ 0]) simp
  next
    case False
    from Cons.IH[of "res @ [e]" "used + ?t"] obtain k where
      k: "k \<le> length rest"
         "truncate_loop rest m (res @ [e]) (used + ?t) = (res @ [e]) @ take k rest"
         "\<forall>i<length rest. i < k \<longleftrightarrow> (used + ?t + summary_tokens (take (Suc i) rest) \<le> m)"
      by auto
    have step: "truncate_loop (e # rest) m res used = res @ take (Suc k) (e # rest)"
      using False k(2) by (simp add: Let_def)
    have "\<forall>i<length (e # rest). i < Suc k \<longleftrightarrow>
            ((res = [] \<and> i = 0) \<or> used + summary_tokens (take (Suc i) (e # rest)) \<le> m)"
    proof (intro allI impI)
      fix i assume il: "i < length (e # rest)"
      show "i < Suc k \<longleftrightarrow>
              ((res = [] \<and> i = 0) \<or> used + summary_tokens (take (Suc i) (e # rest)) \<le> m)"
      proof (cases i)
        case 0
        have "summary_tokens (take (Suc 0) (e # rest)) = ?t" by (simp add: summary_tokens_def)
        with False 0 show ?thesis by auto
      next
        case (Suc j)
        with il have "j < length rest" by simp
        with k(3) have "j < k \<longleftrightarrow> used + ?t + summary_tokens (take (Suc j) rest) \<le> m"
          by blast
        with Suc st[of "Suc j"] show ?thesis by (simp add: add.assoc)
      qed
    qed
    with k(1) step show ?thesis
      by (intro exI[of _ "Suc k"]) simp
  qed
qed

text \<open>\<open>getRecent\<close> of the manager with \<open>maxTokens\<close> given is this selection on what the store returns.\<close>

lemma manager_getRecent_maxTokens:
  "maxTokens options = Some m \<Longrightarrow>
   manager_getRecent config now options db =
     truncateToTokenBudget
       (storage_getRecent now
          \<lparr>limit = Some (maxEntries config),
           maxAgeMs = map_option (\<lambda>a. a * 60 * 1000) (maxAge options),
           filter_sessionType = options_sessionType options,
           filter_taskId = options_taskId options\<rparr> db) m"
  by (simp add: manager_getRecent_def)

text \<open>
  C5. The token-budget selection returns a prefix of the ordered list: the entry at
  position \<open>i\<close> is in it exactly when it is the first entry (the result is still empty)
  or the running total of summary costs up to and including it does not exceed the
  budget \<open>maxTokens\<close>; so the walk stops at the first later entry that would exceed the budget,
  and a non-empty list gives a non-empty result.
\<close>

theorem truncateToTokenBudget_selection:
  "\<exists>n\<le>length entries.
     truncateToTokenBudget entries budget = take n entries \<and>
     (\<forall>i<length entries.
        i < n \<longleftrightarrow> (i = 0 \<or> summary_tokens (take (Suc i) entries) \<le> budget)) \<and>
     (entries \<noteq> [] \<longrightarrow> truncateToTokenBudget entries budget \<noteq> [])"
proof -
  from truncate_loop_prefix[of entries budget "[]" 0] obtain n where
    n: "n \<le> length entries" "truncate_loop entries budget [] 0 = take n entries"
       "\<forall>i<length entries.
          i < n \<longleftrightarrow> (i = 0 \<or> summary_tokens (take (Suc i) entries) \<le> budget)"
    by auto
  have "truncateToTokenBudget entries budget \<noteq> []" if "entries \<noteq> []"
  proof -
    from that have "0 < length entries" by simp
    with n(3) have "0 < n" by blast
    with that n(2) show ?thesis by (simp add: truncateToTokenBudget_def)
  qed
  with n show ?thesis
    unfolding truncateToTokenBudget_def by blast
qed

theorem truncateToTokenBudget_selection_witness:
  "truncateToTokenBudget
     [sample_entry ''a'' ''twelve chars'' False 2 9, sample_entry ''b'' ''eight ch'' False 1 9] 1
   \<noteq> []"
proof -
  have "[sample_entry ''a'' ''twelve chars'' False 2 9, sample_entry ''b'' ''eight ch'' False 1 9]
        \<noteq> []"
    by simp
  with truncateToTokenBudget_selection
         [of "[sample_entry ''a'' ''twelve chars'' False 2 9,
               sample_entry ''b'' ''eight ch'' False 1 9]" 1]
  show ?thesis by blast
qed

section \<open>Properties of the relative-time label\<close>

text \<open>
  C7. The label is \<open>just now\<close> under one minute of elapsed time, the whole minutes with
  \<open>m ago\<close> under sixty minutes, the whole hours with \<open>h ago\<close> under twenty-four hours,
  and the whole days with \<open>d ago\<close> from then on; each count is the quotient of the
  elapsed milliseconds rounded down.
\<close>

theorem formatRelativeTime_label:
  "(nowMs - createdAt entry < 60000 \<longrightarrow>
      formatRelativeTime (createdAt entry) nowMs = ''just now'') \<and>
   (60000 \<le> nowMs - createdAt entry \<and> nowMs - createdAt entry < 3600000 \<longrightarrow>
      formatRelativeTime (createdAt entry) nowMs =
        decimal (nat ((nowMs - createdAt entry) div 60000)) @ ''m ago'') \<and>
   (3600000 \<le> nowMs - createdAt entry \<and> nowMs - createdAt entry < 86400000 \<longrightarrow>
      formatRelativeTime (createdAt entry) nowMs =
        decimal (nat ((nowMs - createdAt entry) div 3600000)) @ ''h ago'') \<and>
   (86400000 \<le> nowMs - createdAt entry \<longrightarrow>
      formatRelativeTime (createdAt entry) nowMs =
        decimal (nat ((nowMs - createdAt entry) div 86400000)) @ ''d ago'')"
proof -
  define d where "d = nowMs - createdAt entry"
  have h: "d div 60000 div 60 = d div 3600000"
    by (simp add: div_mult2_eq[symmetric])
  have dd: "d div 3600000 div 24 = d div 86400000"
    by (simp add: div_mult2_eq[symmetric])
  have m1: "d div 60000 < 1 \<longleftrightarrow> d < 60000" by linarith
  have m2: "d div 60000 < 60 \<longleftrightarrow> d < 3600000"
    using zdiv_mono1[of 3600000 d 60000] zdiv_mono1[of d 3599999 60000] by auto
  have m3: "d div 3600000 < 24 \<longleftrightarrow> d < 86400000"
    using zdiv_mono1[of 86400000 d 3600000] zdiv_mono1[of d 86399999 3600000] by auto
  have F: "formatRelativeTime (createdAt entry) nowMs =
     (if d < 60000 then ''just now''
      else if d < 3600000 then number_text (d div 60000) @ ''m ago''
      else if d < 86400000 then number_text (d div 3600000) @ ''h ago''
      else number_text (d div 86400000) @ ''d ago'')"
    unfolding formatRelativeTime_def Let_def d_def[symmetric] h dd m1 m2 m3 by (rule refl)
  have nt: "0 \<le> d \<Longrightarrow> number_text (d div c) = decimal (nat (d div c))" if "0 < c" for c :: int
    using that by (simp add: number_text_def pos_imp_zdiv_neg_iff)
  show ?thesis
    unfolding d_def[symmetric] F by (simp add: nt)
qed

theorem formatRelativeTime_label_witness:
  "formatRelativeTime (createdAt (sample_entry ''a'' ''s'' False 0 9)) 300000 = ''5m ago''"
  using formatRelativeTime_label [of 300000 "sample_entry ''a'' ''s'' False 0 9"]
  by (simp add: sample_entry_def decimal.simps)

section \<open>Properties of validation\<close>

text \<open>
  C10. When the session key is empty, the summary is empty or the session type is not
  one of the four of the enumeration, \<open>add\<close> throws the validation error and leaves the
  table exactly as it was: nothing is pruned, inserted or evicted.
\<close>

theorem manager_add_rejects_malformed:
  assumes "sessionKey input = [] \<or> summary input = [] \<or> sessionType input \<notin> set SESSION_TYPES"
  shows "manager_add config env input db = (Inl ZodError, db)"
proof -
  from assms have "CreateEntrySchema_parse input = Inl ZodError"
    by (auto simp: CreateEntrySchema_parse_def)
  then show ?thesis by (simp add: manager_add_def)
qed

theorem manager_add_rejects_malformed_witness:
  "manager_add \<lparr>maxEntries = 1, defaultTtlMinutes = 0\<rparr> (sample_env 100 ''u'')
     ((sample_input ''s'')\<lparr>sessionType := ''email''\<rparr>) [sample_row 1 ''a'' ''old'' False 1 1]
   = (Inl ZodError, [sample_row 1 ''a'' ''old'' False 1 1])"
  by (rule manager_add_rejects_malformed) (simp add: SESSION_TYPES_def sample_input_def)

section \<open>Properties of the entry store\<close>

lemma find_filter_keep:
  "find P xs = Some x \<Longrightarrow> Q x \<Longrightarrow> find P (filter Q xs) = Some x"
  by (induction xs) (auto split: if_splits)

lemma find_append_old:
  "find P xs = Some x \<Longrightarrow> find P (xs @ ys) = Some x"
  by (induction xs) (auto split: if_splits)

lemma getById_SomeD:
  assumes "storage_getById i db = Some e"
  obtains row where "find (\<lambda>row. entryId row = i) db = Some row" "rowToEntry row = e"
    "row \<in> set db" "entryId row = i"
proof -
  from assms obtain row where r: "find (\<lambda>row. entryId row = i) db = Some row" "rowToEntry row = e"
    by (auto simp: storage_getById_def)
  from r(1) have "row \<in> set db" "entryId row = i"
    by (auto simp: find_Some_iff)
  with r that show ?thesis by blast
qed

lemma rowToEntry_simps [simp]:
  "pinned (rowToEntry row) = pinned row"
  "entryId (rowToEntry row) = entryId row"
  "taskId (rowToEntry row) = taskId row"
  "createdAt (rowToEntry row) = createdAt row"
  "expiresAt (rowToEntry row) = expiresAt row"
  "summary (rowToEntry row) = summary row"
  "sessionType (rowToEntry row) = sessionType row"
  "sessionKey (rowToEntry row) = sessionKey row"
  "metadata (rowToEntry row) = metadata row"
  by (simp_all add: rowToEntry_def)

lemma rowToEntry_entryToRow [simp]: "rowToEntry (entryToRow n e) = e"
  by (simp add: rowToEntry_def entryToRow_def)

lemma beyond_cap_unpinned:
  assumes "i \<in> set (beyond_cap cap db)"
  obtains row where "row \<in> set db" "\<not> pinned row" "entryId row = i"
proof -
  from assms obtain row where
    "row \<in> set (sql_offset cap (sort_key created_key (filter (\<lambda>row. \<not> pinned row) db)))"
    "entryId row = i"
    by (auto simp: beyond_cap_def)
  moreover from this(1) have "row \<in> set (sort_key created_key (filter (\<lambda>row. \<not> pinned row) db))"
    unfolding sql_offset_def by (rule in_set_dropD)
  ultimately show ?thesis using that by auto
qed

lemma wf_store_same_id:
  "wf_store db \<Longrightarrow> r \<in> set db \<Longrightarrow> r' \<in> set db \<Longrightarrow> entryId r = entryId r' \<Longrightarrow> r = r'"
  by (auto simp: wf_store_def distinct_map dest: inj_onD)

lemma pinned_not_beyond_cap:
  assumes "wf_store db" "row \<in> set db" "pinned row"
  shows "entryId row \<notin> set (beyond_cap cap db)"
proof
  assume "entryId row \<in> set (beyond_cap cap db)"
  then obtain r where r: "r \<in> set db" "\<not> pinned r" "entryId r = entryId row"
    by (rule beyond_cap_unpinned)
  with assms wf_store_same_id[of db r row] show False by auto
qed

lemma pinned_survives_pruneExpired:
  assumes "storage_getById i db = Some e" "pinned e"
  shows "storage_getById i (snd (storage_pruneExpired now db)) = Some e"
proof -
  from assms(1) obtain row where
    r: "find (\<lambda>row. entryId row = i) db = Some row" "rowToEntry row = e"
    by (rule getById_SomeD)
  with assms(2) have "pinned row" by auto
  then have "\<not> (expiresAt row \<le> now \<and> \<not> pinned row)" by simp
  with r(1) have "find (\<lambda>row. entryId row = i)
     (filter (\<lambda>row. \<not> (expiresAt row \<le> now \<and> \<not> pinned row)) db) = Some row"
    by (rule find_filter_keep)
  with r(2) show ?thesis by (simp add: storage_getById_def storage_pruneExpired_def)
qed

lemma pinned_survives_enforceMaxEntries:
  assumes "wf_store db" "storage_getById i db = Some e" "pinned e"
  shows "storage_getById i (snd (storage_enforceMaxEntries cap db)) = Some e"
proof -
  from assms(2) obtain row where
    r: "find (\<lambda>row. entryId row = i) db = Some row" "rowToEntry row = e" "row \<in> set db"
    by (rule getById_SomeD)
  with assms(3) have "pinned row" by auto
  with assms(1) r(3) have "entryId row \<notin> set (beyond_cap cap db)"
    by (rule pinned_not_beyond_cap)
  with r(1) have "find (\<lambda>row. entryId row = i)
     (filter (\<lambda>row. entryId row \<notin> set (beyond_cap cap db)) db) = Some row"
    by (rule find_filter_keep)
  with r(2) show ?thesis by (simp add: storage_getById_def storage_enforceMaxEntries_def)
qed

lemma getById_insert_old:
  assumes "storage_getById i db = Some e"
  shows "storage_getById i (snd (storage_insert now u input ttl db)) = Some e"
proof -
  from assms obtain row where
    r: "find (\<lambda>row. entryId row = i) db = Some row" "rowToEntry row = e"
    by (rule getById_SomeD)
  from r(1) have "find (\<lambda>row. entryId row = i) (db @ ys) = Some row" for ys
    by (rule find_append_old)
  with r show ?thesis
    by (simp add: storage_getById_def storage_insert_def Let_def)
qed

lemma find_map_id:
  "find (\<lambda>row. entryId row = i) (map (\<lambda>row. if entryId row = j then row\<lparr>pinned := b\<rparr> else row) db)
   = map_option (\<lambda>row. if entryId row = j then row\<lparr>pinned := b\<rparr> else row)
       (find (\<lambda>row. entryId row = i) db)"
  by (induction db) auto

lemma getById_pin:
  assumes "storage_getById i db = Some e" "pinned e"
  shows "storage_getById i (snd (storage_pin j db)) = Some e"
proof -
  from assms(1) obtain row where
    r: "find (\<lambda>row. entryId row = i) db = Some row" "rowToEntry row = e"
    by (rule getById_SomeD)
  from r(2) assms(2) have "rowToEntry (row\<lparr>pinned := True\<rparr>) = e"
    by (auto simp: rowToEntry_def)
  with r show ?thesis
    by (simp add: storage_getById_def storage_pin_def find_map_id)
qed

lemma getById_unpin:
  assumes "storage_getById i db = Some e"
  shows "storage_getById i (snd (storage_unpin j db)) = Some (if j = i then e\<lparr>pinned := False\<rparr> else e)"
proof -
  from assms(1) obtain row where
    r: "find (\<lambda>row. entryId row = i) db = Some row" "rowToEntry row = e" "entryId row = i"
    by (rule getById_SomeD)
  from r(2) have "rowToEntry (row\<lparr>pinned := False\<rparr>) = e\<lparr>pinned := False\<rparr>"
    by (auto simp: rowToEntry_def)
  with r show ?thesis
    by (auto simp add: storage_getById_def storage_unpin_def find_map_id)
qed

lemma getById_delete_other:
  assumes "storage_getById i db = Some e" "j \<noteq> i"
  shows "storage_getById i (snd (storage_delete j db)) = Some e"
proof -
  from assms(1) obtain row where
    r: "find (\<lambda>row. entryId row = i) db = Some row" "rowToEntry row = e" "entryId row = i"
    by (rule getById_SomeD)
  from r(3) assms(2) have "entryId row \<noteq> j" by simp
  with r(1) have "find (\<lambda>row. entryId row = i) (filter (\<lambda>row. entryId row \<noteq> j) db) = Some row"
    by (rule find_filter_keep)
  with r(2) show ?thesis by (simp add: storage_getById_def storage_delete_def)
qed

lemma getById_delete_same: "storage_getById i (snd (storage_delete i db)) = None"
  by (simp add: storage_getById_def storage_delete_def find_None_iff)

lemma getById_deleteByTaskId_other:
  assumes "storage_getById i db = Some e" "taskId e \<noteq> Some t"
  shows "storage_getById i (snd (storage_deleteByTaskId t db)) = Some e"
proof -
  from assms(1) obtain row where
    r: "find (\<lambda>row. entryId row = i) db = Some row" "rowToEntry row = e"
    by (rule getById_SomeD)
  with assms(2) have "taskId row \<noteq> Some t" by auto
  with r(1) have "find (\<lambda>row. entryId row = i) (filter (\<lambda>row. taskId row \<noteq> Some t) db) = Some row"
    by (rule find_filter_keep)
  with r(2) show ?thesis by (simp add: storage_getById_def storage_deleteByTaskId_def)
qed

lemma getById_deleteByTaskId_same:
  assumes "wf_store db" "storage_getById i db = Some e" "taskId e = Some t"
  shows "storage_getById i (snd (storage_deleteByTaskId t db)) = None"
proof -
  from assms(2) obtain row where
    r: "rowToEntry row = e" "row \<in> set db" "entryId row = i"
    by (rule getById_SomeD)
  with assms(3) have t: "taskId row = Some t" by auto
  have "\<not> (\<exists>x. x \<in> set (filter (\<lambda>row. taskId row \<noteq> Some t) db) \<and> entryId x = i)"
  proof
    assume "\<exists>x. x \<in> set (filter (\<lambda>row. taskId row \<noteq> Some t) db) \<and> entryId x = i"
    then obtain x where x: "x \<in> set db" "taskId x \<noteq> Some t" "entryId x = i" by auto
    with r assms(1) wf_store_same_id[of db x row] have "x = row" by simp
    with x t show False by simp
  qed
  then have "find (\<lambda>row. entryId row = i) (filter (\<lambda>row. taskId row \<noteq> Some t) db) = None"
    unfolding find_None_iff by blast
  then show ?thesis
    by (simp add: storage_getById_def storage_deleteByTaskId_def)
qed

text \<open>
  C1. A pinned entry is still in the store, unchanged, after \<open>pruneExpired\<close> at any time
  and after \<open>enforceMaxEntries\<close> with any cap, whatever its expiry and its age. The other
  operations that write to the table keep it too: \<open>insert\<close>, \<open>pin\<close>, \<open>unpin\<close> (which
  clears the flag of the entry it names), \<open>delete\<close> of another id and \<open>deleteByTaskId\<close> of
  another task id. Only \<open>delete\<close> of its id and \<open>deleteByTaskId\<close> of its task id remove it.
\<close>

theorem pinned_entry_survives_eviction:
  assumes "wf_store db" and "storage_getById i db = Some e" and "pinned e"
  shows "storage_getById i (snd (storage_pruneExpired now db)) = Some e \<and>
         storage_getById i (snd (storage_enforceMaxEntries cap db)) = Some e \<and>
         storage_getById i (snd (storage_insert now' u input ttl db)) = Some e \<and>
         storage_getById i (snd (storage_pin j db)) = Some e \<and>
         storage_getById i (snd (storage_unpin j db)) =
           Some (if j = i then e\<lparr>pinned := False\<rparr> else e) \<and>
         (j \<noteq> i \<longrightarrow> storage_getById i (snd (storage_delete j db)) = Some e) \<and>
         (taskId e \<noteq> Some t \<longrightarrow>
            storage_getById i (snd (storage_deleteByTaskId t db)) = Some e) \<and>
         storage_getById i (snd (storage_delete i db)) = None \<and>
         (taskId e = Some t \<longrightarrow> storage_getById i (snd (storage_deleteByTaskId t db)) = None)"
  using assms
  by (simp add: pinned_survives_pruneExpired pinned_survives_enforceMaxEntries
        getById_insert_old getById_pin getById_unpin getById_delete_other
        getById_delete_same getById_deleteByTaskId_other getById_deleteByTaskId_same)

theorem pinned_entry_survives_eviction_witness:
  "storage_getById ''p''
     (snd (storage_pruneExpired 100
        [sample_row 1 ''p'' ''kept'' True 0 1, sample_row 2 ''a'' ''x'' False 5 200,
         sample_row 3 ''b'' ''y'' False 6 200]))
     = Some (sample_entry ''p'' ''kept'' True 0 1) \<and>
   storage_getById ''p''
     (snd (storage_enforceMaxEntries 1
        [sample_row 1 ''p'' ''kept'' True 0 1, sample_row 2 ''a'' ''x'' False 5 200,
         sample_row 3 ''b'' ''y'' False 6 200]))
     = Some (sample_entry ''p'' ''kept'' True 0 1)"
proof -
  let ?db = "[sample_row 1 ''p'' ''kept'' True 0 1, sample_row 2 ''a'' ''x'' False 5 200,
              sample_row 3 ''b'' ''y'' False 6 200]"
  have wf: "wf_store ?db"
    by (simp add: wf_store_def sample_row_def sample_entry_def entryToRow_def)
  have get: "storage_getById ''p'' ?db = Some (sample_entry ''p'' ''kept'' True 0 1)"
    by (simp add: storage_getById_def sample_row_def sample_entry_def entryToRow_def
          rowToEntry_def)
  have pin: "pinned (sample_entry ''p'' ''kept'' True 0 1)"
    by (simp add: sample_entry_def)
  from pinned_entry_survives_eviction [OF wf get pin, of 100 1]
  show ?thesis by blast
qed

section \<open>Properties of \<open>add\<close>\<close>

lemma fold_max_ge: "a \<le> fold max xs (a::nat) \<and> (\<forall>x\<in>set xs. x \<le> fold max xs a)"
proof (induction xs arbitrary: a)
  case Nil
  then show ?case by simp
next
  case (Cons y ys)
  from Cons.IH[of "max y a"] show ?case by auto
qed

lemma next_rowid_gt: "row \<in> set db \<Longrightarrow> rowid row < next_rowid db"
  using fold_max_ge[of 0 "map rowid db"] by (auto simp: next_rowid_def less_Suc_eq_le)

lemma wf_store_filter: "wf_store db \<Longrightarrow> wf_store (filter P db)"
  by (auto simp: wf_store_def distinct_map_filter sorted_wrt_map intro: sorted_wrt_filter)

lemma wf_store_append_new:
  assumes "wf_store db" "entryId row \<notin> set (map entryId db)" "rowid row = next_rowid db"
  shows "wf_store (db @ [row])"
  using assms next_rowid_gt[of _ db]
  by (auto simp: wf_store_def sorted_wrt_append)

lemma sort_key_hd_least:
  fixes f :: "'a \<Rightarrow> 'k::linorder"
  assumes "x \<in> set xs" and "\<forall>y\<in>set xs. y \<noteq> x \<longrightarrow> f x < f y"
  shows "\<exists>rest. sort_key f xs = x # rest"
proof -
  let ?S = "sort_key f xs"
  from assms(1) have "?S \<noteq> []" by (metis empty_iff set_sort set_empty)
  then obtain h rest where S: "?S = h # rest" by (cases ?S) auto
  have "sorted (map f ?S)" by (rule sorted_sort_key)
  with S have le: "\<forall>z\<in>set rest. f h \<le> f z" by simp
  have hx: "h \<in> set xs" using S by (metis list.set_intros(1) set_sort)
  have "x \<in> set ?S" using assms(1) by simp
  with S have "x = h \<or> x \<in> set rest" by simp
  then have "h = x"
  proof
    assume "x = h" then show ?thesis by simp
  next
    assume "x \<in> set rest"
    with le have "f h \<le> f x" by blast
    with assms(2) hx show ?thesis by (metis not_less)
  qed
  with S show ?thesis by blast
qed

lemma find_filter_new:
  assumes "\<forall>x\<in>set xs. \<not> P x" "P y" "Q y"
  shows "find P (filter Q (xs @ [y])) = Some y"
  using assms by (induction xs) auto

lemma new_row_not_beyond_cap:
  assumes wf: "wf_store (db @ [row])"
    and unp: "\<not> pinned row"
    and cap: "1 \<le> cap"
    and clock: "\<forall>r\<in>set db. createdAt r \<le> createdAt row"
  shows "entryId row \<notin> set (beyond_cap cap (db @ [row]))"
proof -
  let ?U = "filter (\<lambda>r. \<not> pinned r) (db @ [row])"
  from wf have rid: "\<forall>r\<in>set db. rowid r < rowid row"
    by (auto simp: wf_store_def sorted_wrt_append)
  have rowU: "row \<in> set ?U" using unp by simp
  have least: "\<forall>y\<in>set ?U. y \<noteq> row \<longrightarrow> created_key row < created_key y"
    using rid clock by (auto simp: created_key_def less_prod_def)
  from sort_key_hd_least[OF rowU least] obtain rest where
    S: "sort_key created_key ?U = row # rest" by blast
  from wf have "distinct (map entryId ?U)"
    by (auto simp: wf_store_def distinct_map_filter)
  then have "distinct ?U" "inj_on entryId (set ?U)"
    by (auto simp: distinct_map)
  then have "distinct (map entryId (sort_key created_key ?U))"
    by (simp add: distinct_map)
  with S have notin: "entryId row \<notin> entryId ` set rest" by simp
  from cap obtain n where n: "nat cap = Suc n" by (cases "nat cap") auto
  have "set (drop (nat cap) (row # rest)) \<subseteq> set rest"
    unfolding n by (simp add: set_drop_subset)
  with notin S show ?thesis
    by (auto simp: beyond_cap_def sql_offset_def)
qed

text \<open>
  C2 (amended). For a valid input, when the clock at the insert is not behind the creation
  time of any stored row (and \<open>randomUUID\<close> gives an id not in the table, under a valid
  configuration), \<open>add\<close> returns an entry, and \<open>getById\<close> on the id of that entry then
  gives the same entry, field by field; an absent task id or metadata comes back as
  \<open>null\<close>.
\<close>

theorem add_then_getById:
  assumes wf: "wf_store db"
    and valid: "sessionKey input \<noteq> [] \<and> summary input \<noteq> [] \<and> sessionType input \<in> set SESSION_TYPES"
    and config: "ManagerConfigSchema_parse config = Inr config"
    and fresh: "uuid env \<notin> set (map entryId db)"
    and clock: "\<forall>row\<in>set db. createdAt row \<le> insertNow env"
  shows "\<exists>entry db'. manager_add config env input db = (Inr entry, db') \<and>
           manager_getById (entryId entry) db' = Some entry \<and>
           entry = new_entry (insertNow env) (uuid env) input (defaultTtlMinutes config)"
proof -
  define entry :: ContextEntry where "entry = new_entry (insertNow env) (uuid env) input (defaultTtlMinutes config)"
  define db1 where "db1 = snd (storage_pruneExpired (pruneNow env) db)"
  define row where "row = entryToRow (next_rowid db1) entry"
  have db1: "db1 = filter (\<lambda>row. \<not> (expiresAt row \<le> pruneNow env \<and> \<not> pinned row)) db"
    by (simp add: db1_def storage_pruneExpired_def)
  have parse: "CreateEntrySchema_parse input = Inr input"
    using valid by (cases "sessionKey input"; cases "summary input")
       (auto simp: CreateEntrySchema_parse_def)
  from config have cap: "1 \<le> maxEntries config"
    by (auto simp: ManagerConfigSchema_parse_def split: if_splits)
  have fresh1: "uuid env \<notin> set (map entryId db1)" using fresh by (auto simp: db1)
  have wf1: "wf_store db1" unfolding db1 using wf by (rule wf_store_filter)
  have ins: "storage_insert (insertNow env) (uuid env) input (defaultTtlMinutes config) db1
             = (Inr entry, db1 @ [row])"
    using fresh1 by (simp add: storage_insert_def entry_def row_def Let_def)
  have rsel: "entryId row = uuid env" "\<not> pinned row" "createdAt row = insertNow env"
    "rowid row = next_rowid db1" "rowToEntry row = entry"
    by (simp_all add: row_def entryToRow_def entry_def new_entry_def)
  have wf2: "wf_store (db1 @ [row])"
    using wf1 fresh1 rsel by (intro wf_store_append_new) simp_all
  have clock1: "\<forall>r\<in>set db1. createdAt r \<le> createdAt row"
    using clock rsel by (auto simp: db1)
  have keep: "entryId row \<notin> set (beyond_cap (maxEntries config) (db1 @ [row]))"
    using wf2 rsel(2) cap clock1 by (rule new_row_not_beyond_cap)
  have add: "manager_add config env input db =
     (Inr entry, snd (storage_enforceMaxEntries (maxEntries config) (db1 @ [row])))"
    by (simp add: manager_add_def parse Let_def db1_def[symmetric] ins)
  have "\<forall>x\<in>set db1. \<not> entryId x = uuid env" using fresh1 by force
  then have "find (\<lambda>r. entryId r = uuid env)
          (filter (\<lambda>r. entryId r \<notin> set (beyond_cap (maxEntries config) (db1 @ [row]))) (db1 @ [row]))
        = Some row"
    using rsel(1) keep by (intro find_filter_new) simp_all
  then have "manager_getById (entryId entry)
          (snd (storage_enforceMaxEntries (maxEntries config) (db1 @ [row]))) = Some entry"
    by (simp add: manager_getById_def storage_getById_def storage_enforceMaxEntries_def rsel(5)
          entry_def new_entry_def)
  with add show ?thesis unfolding entry_def by blast
qed

theorem add_then_getById_witness:
  "\<exists>entry db'.
     manager_add \<lparr>maxEntries = 1, defaultTtlMinutes = 120\<rparr> (sample_env 10 ''u'')
       (sample_input ''hello'') [sample_row 1 ''a'' ''old'' False 5 7200005] = (Inr entry, db') \<and>
     manager_getById (entryId entry) db' = Some entry \<and>
     taskId entry = None \<and> metadata entry = None"
proof -
  have wf: "wf_store [sample_row 1 ''a'' ''old'' False 5 7200005]"
    by (simp add: wf_store_def)
  have valid: "sessionKey (sample_input ''hello'') \<noteq> [] \<and> summary (sample_input ''hello'') \<noteq> [] \<and>
               sessionType (sample_input ''hello'') \<in> set SESSION_TYPES"
    by (simp add: sample_input_def SESSION_TYPES_def)
  have config: "ManagerConfigSchema_parse \<lparr>maxEntries = 1, defaultTtlMinutes = 120\<rparr>
                = Inr \<lparr>maxEntries = 1, defaultTtlMinutes = 120\<rparr>"
    by (simp add: ManagerConfigSchema_parse_def)
  have fresh: "uuid (sample_env 10 ''u'') \<notin> set (map entryId [sample_row 1 ''a'' ''old'' False 5 7200005])"
    by (simp add: sample_env_def sample_row_def sample_entry_def entryToRow_def)
  have clock: "\<forall>row\<in>set [sample_row 1 ''a'' ''old'' False 5 7200005].
                 createdAt row \<le> insertNow (sample_env 10 ''u'')"
    by (simp add: sample_env_def sample_row_def sample_entry_def entryToRow_def)
  from add_then_getById [OF wf valid config fresh clock]
  show ?thesis by (auto simp: sample_input_def new_entry_def)
qed

text \<open>
  With the cap of one taken by a row created at 50 and the clock at 10 for the insert, the
  new row is the oldest: \<open>enforceMaxEntries\<close> deletes it, and \<open>getById\<close> on the id that
  \<open>add\<close> returned finds nothing.
\<close>

theorem add_then_getById_clock_counterexample:
  "manager_add \<lparr>maxEntries = 1, defaultTtlMinutes = 120\<rparr> (sample_env 10 ''u'')
     (sample_input ''hello'') [sample_row 1 ''a'' ''old'' False 50 7200050]
   = (Inr (new_entry 10 ''u'' (sample_input ''hello'') 120),
      [sample_row 1 ''a'' ''old'' False 50 7200050]) \<and>
   manager_getById (entryId (new_entry 10 ''u'' (sample_input ''hello'') 120))
     [sample_row 1 ''a'' ''old'' False 50 7200050] = None"
  by (simp add: manager_add_def CreateEntrySchema_parse_def sample_input_def sample_env_def
        SESSION_TYPES_def storage_pruneExpired_def storage_insert_def new_entry_def
        entryToRow_def next_rowid_def storage_enforceMaxEntries_def beyond_cap_def
        sql_offset_def created_key_def sample_row_def sample_entry_def manager_getById_def
        storage_getById_def Let_def)

section \<open>Properties of the cap\<close>














section \<open>Properties of the rendering\<close>

lemma line_tokens_nonneg: "0 \<le> line_tokens nowMs es"
  unfolding line_tokens_def by (rule sum_list_nonneg) (auto simp: estimateTokens_nonneg)

lemma line_tokens_Cons:
  "line_tokens nowMs (e # es) = estimateTokens (formatEntry e nowMs) + line_tokens nowMs es"
  by (simp add: line_tokens_def)

lemma summary_le_line: "estimateTokens (summary e) \<le> estimateTokens (formatEntry e nowMs)"
  by (rule estimateTokens_mono) (simp add: formatEntry_def Let_def)

lemma summary_tokens_le_line_tokens: "summary_tokens es \<le> line_tokens nowMs es"
  by (induction es) (auto simp: summary_tokens_def line_tokens_def intro: add_mono summary_le_line)

lemma format_loop_prefix:
  "\<exists>k\<le>length xs.
     format_loop xs nowMs b ls
       = ls @ map (\<lambda>e. formatEntry e nowMs) (take k xs) @
         (if k < length xs then [truncation_marker] else []) \<and>
     (\<forall>i<length xs. i < k \<longleftrightarrow> line_tokens nowMs (take (Suc i) xs) \<le> b)"
proof (induction xs arbitrary: b ls)
  case Nil
  then show ?case by simp
next
  case (Cons e rest)
  let ?t = "estimateTokens (formatEntry e nowMs)"
  have st: "\<And>j. line_tokens nowMs (take (Suc j) (e # rest)) = ?t + line_tokens nowMs (take j rest)"
    by (simp add: line_tokens_Cons)
  show ?case
  proof (cases "b - ?t < 0")
    case True
    have "\<forall>i<length (e # rest). \<not> line_tokens nowMs (take (Suc i) (e # rest)) \<le> b"
    proof (intro allI impI)
      fix i
      from line_tokens_nonneg[of nowMs "take i rest"] True st[of i]
      show "\<not> line_tokens nowMs (take (Suc i) (e # rest)) \<le> b" by linarith
    qed
    moreover have "format_loop (e # rest) nowMs b ls = ls @ [truncation_marker]"
      using True by (simp add: Let_def)
    ultimately show ?thesis
      by (intro exI[of _ 0]) simp
  next
    case False
    from Cons.IH[of "b - ?t" "ls @ [formatEntry e nowMs]"] obtain k where
      k: "k \<le> length rest"
         "format_loop rest nowMs (b - ?t) (ls @ [formatEntry e nowMs])
            = (ls @ [formatEntry e nowMs]) @ map (\<lambda>e. formatEntry e nowMs) (take k rest) @
              (if k < length rest then [truncation_marker] else [])"
         "\<forall>i<length rest. i < k \<longleftrightarrow> line_tokens nowMs (take (Suc i) rest) \<le> b - ?t"
      by blast
    have step: "format_loop (e # rest) nowMs b ls
       = ls @ map (\<lambda>e. formatEntry e nowMs) (take (Suc k) (e # rest)) @
         (if Suc k < length (e # rest) then [truncation_marker] else [])"
      using False k(2) by (simp add: Let_def)
    have "\<forall>i<length (e # rest). i < Suc k \<longleftrightarrow> line_tokens nowMs (take (Suc i) (e # rest)) \<le> b"
    proof (intro allI impI)
      fix i assume il: "i < length (e # rest)"
      show "i < Suc k \<longleftrightarrow> line_tokens nowMs (take (Suc i) (e # rest)) \<le> b"
      proof (cases i)
        case 0
        have "line_tokens nowMs (take (Suc 0) (e # rest)) = ?t" by (simp add: line_tokens_def)
        with False 0 show ?thesis by simp
      next
        case (Suc j)
        with il have "j < length rest" by simp
        with k(3) have "j < k \<longleftrightarrow> line_tokens nowMs (take (Suc j) rest) \<le> b - ?t" by blast
        with Suc st[of "Suc j"] show ?thesis by auto
      qed
    qed
    with k(1) step show ?thesis
      by (intro exI[of _ "Suc k"]) simp
  qed
qed

lemma formatEntry_sample:
  "formatEntry (sample_entry i text False 0 ex) 0 = ''- [just now, DM] '' @ text"
  by (simp add: formatEntry_def sample_entry_def formatRelativeTime_def session_label_def
        SESSION_TYPE_LABELS_def)

text \<open>
  C6 (amended). For a non-empty list of entries whose estimated cost exceeds \<open>maxTokens\<close>
  (the summaries alone, or the header and the rendered lines), the output is the header,
  the lines of the first \<open>k\<close> entries and the truncation marker line, where \<open>k\<close> is less
  than the number of entries: the entry at position \<open>i\<close> has a line exactly when the header
  and the lines up to it fit the budget. So there is at least one entry line exactly when
  the line of the first entry fits after the header. For the empty list the output is the
  empty string, whatever the options.
\<close>

theorem formatForSystemPrompt_truncates:
  assumes now: "nowMs = (case fmt_now options of Some n \<Rightarrow> n | None \<Rightarrow> clock)"
    and budget: "budget = (case fmt_maxTokens options of Some m \<Rightarrow> m | None \<Rightarrow> 2000)"
    and nonempty: "entries \<noteq> []"
    and exceeds: "budget < summary_tokens entries \<or>
                  budget < estimateTokens header + line_tokens nowMs entries"
  shows "(\<exists>k<length entries.
            format_lines clock entries options
              = map (\<lambda>e. formatEntry e nowMs) (take k entries) @ [truncation_marker] \<and>
            formatForSystemPrompt clock entries options
              = header @ join_lines (map (\<lambda>e. formatEntry e nowMs) (take k entries) @
                                     [truncation_marker]) \<and>
            (\<forall>i<length entries.
               i < k \<longleftrightarrow>
               estimateTokens header + line_tokens nowMs (take (Suc i) entries) \<le> budget) \<and>
            (0 < k \<longleftrightarrow>
               estimateTokens header + estimateTokens (formatEntry (hd entries) nowMs) \<le> budget)) \<and>
         formatForSystemPrompt clock [] options = []"
proof -
  let ?b = "budget - estimateTokens header"
  have ex: "budget < estimateTokens header + line_tokens nowMs entries"
    using exceeds summary_tokens_le_line_tokens[of entries nowMs] estimateTokens_nonneg[of header]
    by linarith
  from format_loop_prefix[of entries nowMs ?b "[]"] obtain k where
    k: "k \<le> length entries"
       "format_loop entries nowMs ?b []
          = map (\<lambda>e. formatEntry e nowMs) (take k entries) @
            (if k < length entries then [truncation_marker] else [])"
       "\<forall>i<length entries. i < k \<longleftrightarrow> line_tokens nowMs (take (Suc i) entries) \<le> ?b"
    by auto
  have lt: "k < length entries"
  proof (rule ccontr)
    assume "\<not> k < length entries"
    with k(1) have "k = length entries" by simp
    moreover from nonempty have "length entries - 1 < length entries" by simp
    ultimately have "line_tokens nowMs (take (Suc (length entries - 1)) entries) \<le> ?b"
      using k(3) by blast
    moreover from nonempty have "Suc (length entries - 1) = length entries" by simp
    ultimately have "line_tokens nowMs entries \<le> ?b" by simp
    with ex show False by simp
  qed
  have lines: "format_lines clock entries options
                 = map (\<lambda>e. formatEntry e nowMs) (take k entries) @ [truncation_marker]"
    using k(2) lt by (simp add: format_lines_def Let_def now budget)
  have out: "formatForSystemPrompt clock entries options
               = header @ join_lines (map (\<lambda>e. formatEntry e nowMs) (take k entries) @
                                      [truncation_marker])"
    using nonempty lines by (simp add: formatForSystemPrompt_def)
  have char: "\<forall>i<length entries.
               i < k \<longleftrightarrow>
               estimateTokens header + line_tokens nowMs (take (Suc i) entries) \<le> budget"
    using k(3) by auto
  have first: "0 < k \<longleftrightarrow>
               estimateTokens header + estimateTokens (formatEntry (hd entries) nowMs) \<le> budget"
  proof -
    from nonempty obtain e rest where e: "entries = e # rest" by (cases entries) auto
    then have "line_tokens nowMs (take (Suc 0) entries) = estimateTokens (formatEntry (hd entries) nowMs)"
      by (simp add: line_tokens_def)
    moreover from nonempty have "0 < length entries" by simp
    ultimately show ?thesis using char by metis
  qed
  have "formatForSystemPrompt clock [] options = []"
    by (simp add: formatForSystemPrompt_def)
  with lt lines out char first show ?thesis by blast
qed

theorem formatForSystemPrompt_truncates_witness:
  "\<exists>k<2.
     formatForSystemPrompt 7
       [sample_entry ''a'' ''Started auth refactor task'' False 0 9,
        sample_entry ''b'' ''Reviewed the pull request'' False 0 9]
       \<lparr>fmt_maxTokens = Some 30, fmt_now = Some 0\<rparr>
     = header @ join_lines
         (map (\<lambda>e. formatEntry e 0)
            (take k [sample_entry ''a'' ''Started auth refactor task'' False 0 9,
                     sample_entry ''b'' ''Reviewed the pull request'' False 0 9]) @
          [truncation_marker]) \<and>
     0 < k"
proof -
  let ?es = "[sample_entry ''a'' ''Started auth refactor task'' False 0 9,
              sample_entry ''b'' ''Reviewed the pull request'' False 0 9]"
  let ?opts = "\<lparr>fmt_maxTokens = Some 30, fmt_now = Some 0\<rparr>"
  have now: "(0::int) = (case fmt_now ?opts of Some n \<Rightarrow> n | None \<Rightarrow> 7)" by simp
  have budget: "(30::int) = (case fmt_maxTokens ?opts of Some m \<Rightarrow> m | None \<Rightarrow> 2000)" by simp
  have nonempty: "?es \<noteq> []" by simp
  have exceeds: "30 < summary_tokens ?es \<or> 30 < estimateTokens header + line_tokens 0 ?es"
    by (simp add: line_tokens_def formatEntry_sample estimateTokens_def CHARS_PER_TOKEN_def
          header_def)
  have first: "estimateTokens header + estimateTokens (formatEntry (hd ?es) 0) \<le> 30"
    by (simp add: formatEntry_sample estimateTokens_def CHARS_PER_TOKEN_def header_def)
  from formatForSystemPrompt_truncates [OF now budget nonempty exceeds] obtain k where
    k: "k < length ?es"
       "formatForSystemPrompt 7 ?es ?opts
          = header @ join_lines (map (\<lambda>e. formatEntry e 0) (take k ?es) @ [truncation_marker])"
       "0 < k \<longleftrightarrow> estimateTokens header + estimateTokens (formatEntry (hd ?es) 0) \<le> 30"
    by blast
  from k(1) have "k < 2" by simp
  moreover from k(3) first have "0 < k" by blast
  ultimately show ?thesis using k(2) by blast
qed

text \<open>
  A budget of 5 tokens is less than the 10 of the header: the line of the only entry does
  not fit, and the output is the header and the marker, with no entry line.
\<close>

theorem formatForSystemPrompt_no_entry_line_counterexample:
  "5 < summary_tokens [sample_entry ''a'' ''Started auth refactor task'' False 0 9] \<and>
   format_lines 7 [sample_entry ''a'' ''Started auth refactor task'' False 0 9]
     \<lparr>fmt_maxTokens = Some 5, fmt_now = Some 0\<rparr> = [truncation_marker] \<and>
   formatForSystemPrompt 7 [sample_entry ''a'' ''Started auth refactor task'' False 0 9]
     \<lparr>fmt_maxTokens = Some 5, fmt_now = Some 0\<rparr> = header @ truncation_marker"
  by (simp add: formatForSystemPrompt_def format_lines_def formatEntry_sample summary_tokens_def
        estimateTokens_def CHARS_PER_TOKEN_def header_def sample_entry_def)

section \<open>Properties of \<open>clear\<close>\<close>

lemma clear_loop_filter:
  "clear_loop es db = filter (\<lambda>row. entryId row \<notin> entryId ` set es) db"
proof (induction es arbitrary: db)
  case Nil
  then show ?case by simp
next
  case (Cons e es)
  have "clear_loop (e # es) db
          = filter (\<lambda>row. entryId row \<notin> entryId ` set es) (filter (\<lambda>row. entryId row \<noteq> entryId e) db)"
    by (simp add: Cons.IH storage_delete_def)
  also have "\<dots> = filter (\<lambda>row. entryId row \<notin> entryId ` set (e # es)) db"
    by (auto intro: filter_cong)
  finally show ?case .
qed

lemma clear_loop_foldl:
  "clear_loop es db = foldl (\<lambda>d e. snd (manager_delete (entryId e) d)) db es"
  by (induction es arbitrary: db) (simp_all add: manager_delete_def)

lemma length_sql_limit: "0 \<le> n \<Longrightarrow> int (length (sql_limit n rows)) \<le> n"
  by (simp add: sql_limit_def)

lemma clear_entries_length: "length (clear_entries now db) \<le> 10000"
  using length_sql_limit[of 10000]
  by (simp add: clear_entries_def storage_getRecent_def recent_rows_def sql_limit_def)

lemma clear_entries_all:
  assumes "length db \<le> 10000"
  shows "set (clear_entries now db) = rowToEntry ` {row \<in> set db. expiresAt row > now \<or> pinned row}"
proof -
  let ?f = "filter (recent_where now
         \<lparr>limit = Some 10000, maxAgeMs = None, filter_sessionType = None, filter_taskId = None\<rparr>) db"
  have "length (sort_key recent_key ?f) \<le> 10000"
  proof -
    have "length (sort_key recent_key ?f) = length ?f" by simp
    also have "\<dots> \<le> length db" by (rule length_filter_le)
    also note assms
    finally show ?thesis .
  qed
  then have "take 10000 (sort_key recent_key ?f) = sort_key recent_key ?f" by simp
  then show ?thesis
    by (auto simp: clear_entries_def storage_getRecent_def recent_rows_def sql_limit_def
          recent_where_def)
qed

text \<open>
  C9 (amended). \<open>clear\<close> fetches at most 10000 entries with the store's \<open>getRecent\<close> and
  deletes each of them by id, with the delete that the manager's \<open>delete\<close> runs: the table
  keeps exactly the rows whose id was not fetched, none of the fetched ids is found
  afterwards, and a table of at most 10000 rows keeps exactly its expired unpinned rows,
  which \<open>getRecent\<close> does not return. \<open>clear\<close> returns no value.
\<close>

theorem manager_clear_deletes_fetched:
  assumes wf: "wf_store db"
  shows
  "length (clear_entries now db) \<le> 10000 \<and>
   snd (manager_clear now db)
     = foldl (\<lambda>d e. snd (manager_delete (entryId e) d)) db (clear_entries now db) \<and>
   snd (manager_clear now db)
     = filter (\<lambda>row. entryId row \<notin> entryId ` set (clear_entries now db)) db \<and>
   (\<forall>e\<in>set (clear_entries now db).
      manager_getById (entryId e) (snd (manager_clear now db)) = None) \<and>
   (length db \<le> 10000 \<longrightarrow>
      snd (manager_clear now db) = filter (\<lambda>row. expiresAt row \<le> now \<and> \<not> pinned row) db) \<and>
   fst (manager_clear now db) = ()"
proof -
  have a: "snd (manager_clear now db)
     = filter (\<lambda>row. entryId row \<notin> entryId ` set (clear_entries now db)) db"
    by (simp add: manager_clear_def clear_loop_filter)
  have b: "snd (manager_clear now db)
     = foldl (\<lambda>d e. snd (manager_delete (entryId e) d)) db (clear_entries now db)"
    by (simp add: manager_clear_def clear_loop_foldl)
  have c: "\<forall>e\<in>set (clear_entries now db).
      manager_getById (entryId e) (snd (manager_clear now db)) = None"
    unfolding a by (auto simp: manager_getById_def storage_getById_def find_None_iff)
  have d: "snd (manager_clear now db) = filter (\<lambda>row. expiresAt row \<le> now \<and> \<not> pinned row) db"
    if "length db \<le> 10000"
  proof -
    have "entryId row \<notin> entryId ` set (clear_entries now db) \<longleftrightarrow>
          (expiresAt row \<le> now \<and> \<not> pinned row)" if "row \<in> set db" for row
    proof
      assume n: "entryId row \<notin> entryId ` set (clear_entries now db)"
      show "expiresAt row \<le> now \<and> \<not> pinned row"
      proof (rule ccontr)
        assume "\<not> (expiresAt row \<le> now \<and> \<not> pinned row)"
        with \<open>row \<in> set db\<close> have "rowToEntry row \<in> set (clear_entries now db)"
          unfolding clear_entries_all[OF \<open>length db \<le> 10000\<close>] by auto
        then have "entryId (rowToEntry row) \<in> entryId ` set (clear_entries now db)"
          by (rule imageI)
        with n show False by simp
      qed
    next
      assume e: "expiresAt row \<le> now \<and> \<not> pinned row"
      show "entryId row \<notin> entryId ` set (clear_entries now db)"
      proof
        assume "entryId row \<in> entryId ` set (clear_entries now db)"
        then obtain r where r: "r \<in> set db" "expiresAt r > now \<or> pinned r" "entryId r = entryId row"
          unfolding clear_entries_all[OF \<open>length db \<le> 10000\<close>] by auto
        with wf that wf_store_same_id[of db r row] have "r = row" by simp
        with r(2) e show False by auto
      qed
    qed
    then have "filter (\<lambda>row. entryId row \<notin> entryId ` set (clear_entries now db)) db
               = filter (\<lambda>row. expiresAt row \<le> now \<and> \<not> pinned row) db"
      by (intro filter_cong refl) blast
    then show ?thesis unfolding a .
  qed
  from a b c d clear_entries_length show ?thesis by simp
qed

theorem manager_clear_deletes_fetched_witness:
  "snd (manager_clear 100
          [sample_row 1 ''a'' ''expired'' False 0 50, sample_row 2 ''b'' ''live'' False 60 200])
   = [sample_row 1 ''a'' ''expired'' False 0 50]"
proof -
  let ?db = "[sample_row 1 ''a'' ''expired'' False 0 50, sample_row 2 ''b'' ''live'' False 60 200]"
  have wf: "wf_store ?db"
    by (simp add: wf_store_def sample_row_def sample_entry_def entryToRow_def)
  have len: "length ?db \<le> 10000" by simp
  from manager_clear_deletes_fetched [OF wf, of 100] len
  have "snd (manager_clear 100 ?db) = filter (\<lambda>row. expiresAt row \<le> 100 \<and> \<not> pinned row) ?db"
    by blast
  also have "\<dots> = [sample_row 1 ''a'' ''expired'' False 0 50]"
    by (simp add: sample_row_def sample_entry_def entryToRow_def)
  finally show ?thesis .
qed

text \<open>
  \<open>clear\<close> returns the same value when it removes one row and when it removes none: the
  value is not the number removed.
\<close>

theorem manager_clear_no_count_counterexample:
  "fst (manager_clear 100 [sample_row 1 ''b'' ''live'' False 60 200]) = fst (manager_clear 100 []) \<and>
   manager_count [sample_row 1 ''b'' ''live'' False 60 200]
     - manager_count (snd (manager_clear 100 [sample_row 1 ''b'' ''live'' False 60 200])) = 1 \<and>
   manager_count [] - manager_count (snd (manager_clear 100 [])) = 0"
  by (simp add: manager_clear_def clear_entries_def storage_getRecent_def recent_rows_def
        recent_where_def sql_limit_def storage_delete_def manager_count_def storage_count_def
        sample_row_def sample_entry_def entryToRow_def rowToEntry_def)

section \<open>Properties of \<open>getRecent\<close>\<close>

lemma recent_key_inj: "wf_store db \<Longrightarrow> inj_on recent_key (set db)"
proof -
  assume "wf_store db"
  then have "distinct (map rowid db)" by (auto simp: wf_store_def strict_sorted_iff)
  then have "inj_on rowid (set db)" by (simp add: distinct_map)
  then show ?thesis by (auto simp: inj_on_def recent_key_def)
qed

lemma wf_store_distinct: "wf_store db \<Longrightarrow> distinct db"
  by (auto simp: wf_store_def distinct_map)

lemma recent_key_less:
  "recent_key a < recent_key b \<Longrightarrow>
     (pinned a \<and> \<not> pinned b) \<or>
     (pinned a = pinned b \<and>
      (createdAt a > createdAt b \<or> (createdAt a = createdAt b \<and> rowid a > rowid b)))"
  by (auto simp: recent_key_def less_prod_def split: if_splits)

text \<open>
  C4. For a limit, a count of rows that is 100 when absent, the store's \<open>getRecent\<close>
  returns at most that many entries: the first ones of the list of exactly
  those rows of the table that are unexpired or pinned, that are within \<open>maxAgeMs\<close> or
  pinned when \<open>maxAgeMs\<close> is given, and that match the session type and the task id when
  these are given; the list has pinned rows first, then later creation times first, and
  among equal creation times the row inserted later (of larger \<open>rowid\<close>) first.
\<close>

theorem storage_getRecent_select_order:
  assumes wf: "wf_store db"
    and lim: "n = (case limit options of Some l \<Rightarrow> l | None \<Rightarrow> 100)"
    and nonneg: "0 \<le> n"
  shows "\<exists>matching.
           storage_getRecent now options db = map rowToEntry (take (nat n) matching) \<and>
           int (length (storage_getRecent now options db)) \<le> n \<and>
           distinct matching \<and>
           (\<forall>row. row \<in> set matching \<longleftrightarrow>
              row \<in> set db \<and>
              (expiresAt row > now \<or> pinned row) \<and>
              (case maxAgeMs options of
                 None \<Rightarrow> True | Some age \<Rightarrow> createdAt row > now - age \<or> pinned row) \<and>
              (case filter_sessionType options of
                 None \<Rightarrow> True | Some t \<Rightarrow> sessionType row = t) \<and>
              (case filter_taskId options of
                 None \<Rightarrow> True | Some t \<Rightarrow> taskId row = Some t)) \<and>
           sorted_wrt (\<lambda>a b. (pinned a \<and> \<not> pinned b) \<or>
                             (pinned a = pinned b \<and>
                              (createdAt a > createdAt b \<or>
                               (createdAt a = createdAt b \<and> rowid a > rowid b)))) matching"
proof -
  define matching where "matching = sort_key recent_key (filter (recent_where now options) db)"
  have res: "storage_getRecent now options db = map rowToEntry (take (nat n) matching)"
    using nonneg by (simp add: storage_getRecent_def recent_rows_def sql_limit_def lim[symmetric]
        matching_def)
  have len: "int (length (storage_getRecent now options db)) \<le> n"
    unfolding res using nonneg by simp
  have wff: "wf_store (filter (recent_where now options) db)"
    using wf by (rule wf_store_filter)
  have dist: "distinct matching"
    unfolding matching_def using wf_store_distinct[OF wff] by simp
  have mem: "\<forall>row. row \<in> set matching \<longleftrightarrow>
              row \<in> set db \<and>
              (expiresAt row > now \<or> pinned row) \<and>
              (case maxAgeMs options of
                 None \<Rightarrow> True | Some age \<Rightarrow> createdAt row > now - age \<or> pinned row) \<and>
              (case filter_sessionType options of
                 None \<Rightarrow> True | Some t \<Rightarrow> sessionType row = t) \<and>
              (case filter_taskId options of
                 None \<Rightarrow> True | Some t \<Rightarrow> taskId row = Some t)"
    by (simp add: matching_def recent_where_def)
  have "sorted (map recent_key matching)"
    unfolding matching_def by (rule sorted_sort_key)
  moreover have "distinct (map recent_key matching)"
    using dist recent_key_inj[OF wff] by (simp add: distinct_map matching_def)
  ultimately have "sorted_wrt (<) (map recent_key matching)"
    by (simp add: strict_sorted_iff)
  then have "sorted_wrt (\<lambda>a b. recent_key a < recent_key b) matching"
    by (simp add: sorted_wrt_map)
  then have ord: "sorted_wrt (\<lambda>a b. (pinned a \<and> \<not> pinned b) \<or>
                             (pinned a = pinned b \<and>
                              (createdAt a > createdAt b \<or>
                               (createdAt a = createdAt b \<and> rowid a > rowid b)))) matching"
    by (rule sorted_wrt_mono_rel[rotated]) (rule recent_key_less)
  from res len dist mem ord show ?thesis by blast
qed

theorem storage_getRecent_select_order_witness:
  "int (length (storage_getRecent 100
             \<lparr>limit = Some 1, maxAgeMs = None, filter_sessionType = None, filter_taskId = None\<rparr>
             [sample_row 1 ''a'' ''one'' False 60 200, sample_row 2 ''b'' ''two'' False 70 200]))
   \<le> 1"
proof -
  let ?db = "[sample_row 1 ''a'' ''one'' False 60 200, sample_row 2 ''b'' ''two'' False 70 200]"
  let ?opts = "\<lparr>limit = Some 1, maxAgeMs = None, filter_sessionType = None, filter_taskId = None\<rparr>"
  have wf: "wf_store ?db"
    by (simp add: wf_store_def sample_row_def sample_entry_def entryToRow_def)
  have lim: "(1::int) = (case limit ?opts of Some l \<Rightarrow> l | None \<Rightarrow> 100)" by simp
  have nonneg: "(0::int) \<le> 1" by simp
  from storage_getRecent_select_order [OF wf lim nonneg, of 100]
  show ?thesis by blast
qed

section \<open>Properties of the capture adapter\<close>

lemma forget_run_simps [simp]:
  "runTextBuffers (forget_run r st) r = None"
  "runSessionKeys (forget_run r st) r = None"
  "table (forget_run r st) = table st"
  "manager_instance (forget_run r st) = manager_instance st"
  by (simp_all add: forget_run_def)













end
